theory Spec2Isabelle
  imports Complex_Main "HOL-Library.Word"
begin

unbundle bit_operations_syntax

section \<open>Data model\<close>

text \<open>
  The engine of \<^verbatim>\<open>bufferRegister.py\<close> and \<^verbatim>\<open>buffer2Register.py\<close> (class
  \<^verbatim>\<open>Buffering\<close>). A datagram is a list of bytes, a chunk is an array of
  \<^verbatim>\<open>numpy.int16\<close> samples (a 16-bit word, read as signed by \<open>sint\<close>); Python's
  integers are unbounded and are modelled by \<open>int\<close>, whose \<open>mod\<close> has the sign of the
  divisor as Python's \<^verbatim>\<open>%\<close> has.
\<close>

type_synonym byte = "8 word"
type_synonym sample = "16 word"
type_synonym frame = "sample list"

datatype error = StructError | ValueError | ZeroDivisionError | IndexError | OSError

section \<open>Chunk codec\<close>

text \<open>
  \<^verbatim>\<open>struct.pack("!H", n)\<close>: two bytes, most significant first; raises
  \<^verbatim>\<open>struct.error\<close> unless \<open>0 \<le> n \<le> 65535\<close>.
\<close>

definition struct_pack_H :: "int \<Rightarrow> error + byte list" where
  "struct_pack_H n =
     (if 0 \<le> n \<and> n \<le> 65535
      then Inr [word_of_int (n div 256), word_of_int (n mod 256)]
      else Inl StructError)"

text \<open>
  \<^verbatim>\<open>struct.unpack("!H", b)\<close>: raises \<^verbatim>\<open>struct.error\<close> unless \<open>b\<close> holds exactly
  two bytes.
\<close>

fun struct_unpack_H :: "byte list \<Rightarrow> error + int" where
  "struct_unpack_H [hi, lo] = Inr (uint hi * 256 + uint lo)"
| "struct_unpack_H bs = Inl StructError"

text \<open>
  \<^verbatim>\<open>ndarray.tobytes()\<close> of an int16 array: the samples in C order, each in the
  byte order of the machine (little-endian here: low byte first).
\<close>

definition sample_bytes :: "sample \<Rightarrow> byte list" where
  "sample_bytes x = [ucast x, ucast (drop_bit 8 x)]"

definition tobytes :: "sample list \<Rightarrow> byte list" where
  "tobytes chunk = concat (map sample_bytes chunk)"

text \<open>
  \<^verbatim>\<open>np.frombuffer(b, dtype=np.int16)\<close>: raises \<^verbatim>\<open>ValueError\<close> when the size of the
  buffer is not a multiple of the element size; the empty buffer gives the empty array.
\<close>

fun int16_of_bytes :: "byte list \<Rightarrow> sample list" where
  "int16_of_bytes (lo # hi # bs) = (push_bit 8 (ucast hi) OR ucast lo) # int16_of_bytes bs"
| "int16_of_bytes bs = []"

definition frombuffer :: "byte list \<Rightarrow> error + sample list" where
  "frombuffer bs = (if length bs mod 2 \<noteq> 0 then Inl ValueError else Inr (int16_of_bytes bs))"

definition pack :: "int \<Rightarrow> sample list \<Rightarrow> error + byte list" where
  "pack chunk_number chunk =
     (case struct_pack_H chunk_number of
        Inl e \<Rightarrow> Inl e
      | Inr header \<Rightarrow> Inr (header @ tobytes chunk))"

definition unpack :: "byte list \<Rightarrow> error + (int \<times> sample list)" where
  "unpack packed_chunk =
     (case struct_unpack_H (take 2 packed_chunk) of
        Inl e \<Rightarrow> Inl e
      | Inr chunk_number \<Rightarrow>
          (case frombuffer (drop 2 packed_chunk) of
             Inl e \<Rightarrow> Inl e
           | Inr chunk \<Rightarrow> Inr (chunk_number, chunk)))"

section \<open>Python primitives\<close>

definition bind_err :: "error + 'a \<Rightarrow> ('a \<Rightarrow> error + 'b) \<Rightarrow> error + 'b" where
  "bind_err r f = (case r of Inl e \<Rightarrow> Inl e | Inr x \<Rightarrow> f x)"

text \<open>\<^verbatim>\<open>a % n\<close>: raises \<^verbatim>\<open>ZeroDivisionError\<close> when \<open>n = 0\<close>.\<close>

definition py_mod :: "int \<Rightarrow> int \<Rightarrow> error + int" where
  "py_mod a n = (if n = 0 then Inl ZeroDivisionError else Inr (a mod n))"

text \<open>
  The position that \<^verbatim>\<open>xs[i]\<close> reads or writes: a negative index counts from the
  end, an index out of range raises \<^verbatim>\<open>IndexError\<close>.
\<close>

definition py_index :: "'a list \<Rightarrow> int \<Rightarrow> error + nat" where
  "py_index xs i =
     (let n = int (length xs); j = (if i < 0 then n + i else i)
      in if 0 \<le> j \<and> j < n then Inr (nat j) else Inl IndexError)"

text \<open>\<^verbatim>\<open>int(x)\<close> on a number: truncation towards zero.\<close>

definition py_int :: "rat \<Rightarrow> int" where
  "py_int x = (if x < 0 then \<lceil>x\<rceil> else \<lfloor>x\<rfloor>)"

text \<open>
  The bound \<open>k\<close> of a slice \<^verbatim>\<open>xs[:k]\<close> or \<^verbatim>\<open>xs[k:]\<close> over \<open>n\<close> elements, as a
  position between \<open>0\<close> and \<open>n\<close>: a negative bound counts from the end, and a bound
  beyond either end is clipped.
\<close>

definition slice_bound :: "nat \<Rightarrow> int \<Rightarrow> nat" where
  "slice_bound n k = (if k < 0 then nat (int n + k) else min n (nat k))"

text \<open>
  \<^verbatim>\<open>chunk.reshape(rows, cols)\<close>: raises \<^verbatim>\<open>ValueError\<close> unless the array holds
  \<open>rows * cols\<close> elements.
\<close>

fun rows_of :: "nat \<Rightarrow> nat \<Rightarrow> 'a list \<Rightarrow> 'a list list" where
  "rows_of 0 cols xs = []"
| "rows_of (Suc rows) cols xs = take cols xs # rows_of rows cols (drop cols xs)"

definition reshape :: "nat \<Rightarrow> nat \<Rightarrow> sample list \<Rightarrow> error + frame list" where
  "reshape rows cols chunk =
     (if length chunk = rows * cols then Inr (rows_of rows cols chunk) else Inl ValueError)"

text \<open>
  A two-dimensional int16 array as the audio stream hands it over for the output, of
  shape \<open>(length frames, channels)\<close>: its frames, and the number of samples that each
  frame holds.
\<close>

record ndarray =
  channels :: nat
  frames :: "frame list"

text \<open>
  \<^verbatim>\<open>DAC[:k] = src\<close>, where \<open>src\<close> has frames of \<open>cols\<close> samples. The value is
  broadcast to the shape of the selected part of \<open>DAC\<close>: the number of frames of \<open>src\<close>
  must be that of the selection or 1 (the single frame is repeated), and \<open>cols\<close> must
  be the number of channels of \<open>DAC\<close> or 1 (the single sample is repeated); otherwise
  the assignment raises \<^verbatim>\<open>ValueError\<close> and \<open>DAC\<close> is as it was.
\<close>

definition broadcast_frame :: "nat \<Rightarrow> nat \<Rightarrow> frame \<Rightarrow> frame" where
  "broadcast_frame w cols f = (if cols = w then f else replicate w (hd f))"

definition assign_prefix :: "ndarray \<Rightarrow> int \<Rightarrow> nat \<Rightarrow> frame list \<Rightarrow> error + ndarray" where
  "assign_prefix DAC k cols src =
     (let m = slice_bound (length (frames DAC)) k
      in if (length src = m \<or> length src = 1) \<and> (cols = channels DAC \<or> cols = 1)
         then Inr (DAC\<lparr>frames :=
                 map (broadcast_frame (channels DAC) cols)
                   (if length src = m then src else replicate m (hd src))
                 @ drop m (frames DAC)\<rparr>)
         else Inl ValueError)"

text \<open>\<^verbatim>\<open>DAC[k:] = 0\<close>: every sample of the selected frames becomes zero.\<close>

definition zero_from :: "ndarray \<Rightarrow> int \<Rightarrow> ndarray" where
  "zero_from DAC k =
     (let m = slice_bound (length (frames DAC)) k
      in DAC\<lparr>frames := take m (frames DAC)
                @ map (\<lambda>f. replicate (length f) 0) (drop m (frames DAC))\<rparr>)"

section \<open>The buffering engine\<close>

text \<open>\<^verbatim>\<open>CHUNK_NUMBERS = 1 << 15\<close>\<close>

definition CHUNK_NUMBERS :: int where
  "CHUNK_NUMBERS = push_bit 15 1"

text \<open>
  The fields of \<^verbatim>\<open>Buffering\<close>, with the two settings of the base class that the
  engine reads: \<^verbatim>\<open>minimal.args.frames_per_chunk\<close> and \<^verbatim>\<open>NUMBER_OF_CHANNELS\<close>.
  The fill ratios are decimal literals and are kept as exact rationals, and their product
  with the number of frames is taken exactly.
\<close>

record buffering =
  frames_per_chunk :: nat
  NUMBER_OF_CHANNELS :: nat
  chunks_to_buffer :: int
  cells_in_buffer :: int
  buffer :: "sample list list"
  chunk_number :: int
  played_chunk_number :: int
  playback_speed :: rat

text \<open>
  Modelled from the spec: \<^verbatim>\<open>generate_zero_chunk\<close> belongs to the base class
  \<^verbatim>\<open>minimal.Minimal\<close>, which is not among the sources; the spec has the ring pre-filled
  with a zero-filled chunk of frames-per-period times channel-count samples.
\<close>

definition generate_zero_chunk :: "nat \<Rightarrow> nat \<Rightarrow> sample list" where
  "generate_zero_chunk fpc nch = replicate (fpc * nch) 0"

text \<open>
  \<^verbatim>\<open>__init__\<close>. The number of chunks to buffer comes out of a floating-point
  computation on the settings of the base class and is taken as given.
\<close>

definition init :: "nat \<Rightarrow> nat \<Rightarrow> int \<Rightarrow> buffering" where
  "init fpc nch ctb =
     \<lparr>frames_per_chunk = fpc, NUMBER_OF_CHANNELS = nch,
      chunks_to_buffer = ctb, cells_in_buffer = ctb * 2,
      buffer = replicate (nat (ctb * 2)) (generate_zero_chunk fpc nch),
      chunk_number = 0, played_chunk_number = 0, playback_speed = 1\<rparr>"

text \<open>
  The local \<^verbatim>\<open>chunks_in_buffer\<close> of \<^verbatim>\<open>log_buffer_status\<close> and of
  \<^verbatim>\<open>adjust_playback_speed\<close>.
\<close>

definition chunks_in_buffer :: "buffering \<Rightarrow> error + int" where
  "chunks_in_buffer s = py_mod (chunk_number s - played_chunk_number s) (cells_in_buffer s)"

text \<open>\<^verbatim>\<open>log_buffer_status\<close>: the value written to the row of the log.\<close>

definition log_buffer_status :: "buffering \<Rightarrow> error + int" where
  "log_buffer_status s = chunks_in_buffer s"

definition buffer_chunk :: "buffering \<Rightarrow> int \<Rightarrow> sample list \<Rightarrow> error + buffering" where
  "buffer_chunk s n chunk =
     bind_err (py_mod n (cells_in_buffer s)) (\<lambda>i.
     bind_err (py_index (buffer s) i) (\<lambda>k.
     Inr (s\<lparr>buffer := (buffer s)[k := chunk]\<rparr>)))"

definition unbuffer_next_chunk :: "buffering \<Rightarrow> error + sample list" where
  "unbuffer_next_chunk s =
     bind_err (py_mod (played_chunk_number s) (cells_in_buffer s)) (\<lambda>i.
     bind_err (py_index (buffer s) i) (\<lambda>k.
     Inr (buffer s ! k)))"

text \<open>\<^verbatim>\<open>receive_and_buffer\<close>, on the datagram that the socket delivers.\<close>

definition receive_and_buffer :: "buffering \<Rightarrow> byte list \<Rightarrow> error + (buffering \<times> int)" where
  "receive_and_buffer s packed_chunk =
     bind_err (unpack packed_chunk) (\<lambda>(n, chunk).
     bind_err (buffer_chunk s n chunk) (\<lambda>s'.
     Inr (s', n)))"

definition adjust_playback_speed :: "buffering \<Rightarrow> error + buffering" where
  "adjust_playback_speed s =
     bind_err (chunks_in_buffer s) (\<lambda>c.
     Inr (s\<lparr>playback_speed :=
       (if c \<ge> chunks_to_buffer s - 2 then 105 / 100
        else if c = 3 then 95 / 100
        else if c = 2 then 80 / 100
        else if c = 1 then 60 / 100
        else 1)\<rparr>))"

text \<open>
  \<^verbatim>\<open>play_chunk\<close> of \<^verbatim>\<open>buffer2Register.py\<close>. An exception leaves the engine as it
  was when it was raised: the error comes with that state.
\<close>

definition play_chunk ::
  "buffering \<Rightarrow> ndarray \<Rightarrow> sample list \<Rightarrow> (error \<times> buffering) + (buffering \<times> ndarray)" where
  "play_chunk s DAC chunk =
     (case py_mod (played_chunk_number s + 1) (cells_in_buffer s) of
        Inl e \<Rightarrow> Inl (e, s)
      | Inr p \<Rightarrow>
          (let s' = s\<lparr>played_chunk_number := p\<rparr> in
           case reshape (frames_per_chunk s) (NUMBER_OF_CHANNELS s) chunk of
             Inl e \<Rightarrow> Inl (e, s')
           | Inr rows \<Rightarrow>
               (let adjusted_frames = py_int (of_nat (frames_per_chunk s) * playback_speed s) in
                case assign_prefix DAC adjusted_frames (NUMBER_OF_CHANNELS s)
                       (take (slice_bound (length rows) adjusted_frames) rows) of
                  Inl e \<Rightarrow> Inl (e, s')
                | Inr DAC' \<Rightarrow>
                    Inr (s', if adjusted_frames < int (frames_per_chunk s)
                             then zero_from DAC' adjusted_frames else DAC'))))"

text \<open>\<^verbatim>\<open>play_chunk\<close> of \<^verbatim>\<open>bufferRegister.py\<close>: \<^verbatim>\<open>DAC[:] = chunk\<close>.\<close>

definition play_chunk1 ::
  "buffering \<Rightarrow> ndarray \<Rightarrow> sample list \<Rightarrow> (error \<times> buffering) + (buffering \<times> ndarray)" where
  "play_chunk1 s DAC chunk =
     (case py_mod (played_chunk_number s + 1) (cells_in_buffer s) of
        Inl e \<Rightarrow> Inl (e, s)
      | Inr p \<Rightarrow>
          (let s' = s\<lparr>played_chunk_number := p\<rparr> in
           case reshape (frames_per_chunk s) (NUMBER_OF_CHANNELS s) chunk of
             Inl e \<Rightarrow> Inl (e, s')
           | Inr rows \<Rightarrow>
               (case assign_prefix DAC (int (length (frames DAC))) (NUMBER_OF_CHANNELS s) rows of
                  Inl e \<Rightarrow> Inl (e, s')
                | Inr DAC' \<Rightarrow> Inr (s', DAC'))))"

text \<open>
  The callback \<^verbatim>\<open>_record_IO_and_play\<close> of \<^verbatim>\<open>buffer2Register.py\<close>. \<^verbatim>\<open>send\<close> belongs
  to the base class and is a parameter: it answers \<open>None\<close> when the datagram went out and
  \<open>Some e\<close> when it raised \<open>e\<close>. \<open>ADC\<close> is the captured array, of which only the
  samples in their order are read. The callback answers the error, the engine and the
  output array as they were when an exception left it, or the engine, the output array
  and the datagram handed to \<^verbatim>\<open>send\<close> when it returned.
\<close>

definition record_IO_and_play ::
  "(byte list \<Rightarrow> error option) \<Rightarrow> buffering \<Rightarrow> frame list \<Rightarrow> ndarray
     \<Rightarrow> (error \<times> buffering \<times> ndarray) + (buffering \<times> ndarray \<times> byte list)" where
  "record_IO_and_play send s ADC DAC =
     (let s1 = s\<lparr>chunk_number := (chunk_number s + 1) mod CHUNK_NUMBERS\<rparr> in
      case pack (chunk_number s1) (concat ADC) of
        Inl e \<Rightarrow> Inl (e, s1, DAC)
      | Inr packed_chunk \<Rightarrow>
          (case send packed_chunk of
             Some e \<Rightarrow> Inl (e, s1, DAC)
           | None \<Rightarrow>
               (case adjust_playback_speed s1 of
                  Inl e \<Rightarrow> Inl (e, s1, DAC)
                | Inr s2 \<Rightarrow>
                    (case unbuffer_next_chunk s2 of
                       Inl e \<Rightarrow> Inl (e, s2, DAC)
                     | Inr chunk \<Rightarrow>
                         (case play_chunk s2 DAC chunk of
                            Inl (e, s3) \<Rightarrow> Inl (e, s3, DAC)
                          | Inr (s3, DAC') \<Rightarrow> Inr (s3, DAC', packed_chunk))))))"

text \<open>The callback of \<^verbatim>\<open>bufferRegister.py\<close>: no rate controller.\<close>

definition record_IO_and_play1 ::
  "(byte list \<Rightarrow> error option) \<Rightarrow> buffering \<Rightarrow> frame list \<Rightarrow> ndarray
     \<Rightarrow> (error \<times> buffering \<times> ndarray) + (buffering \<times> ndarray \<times> byte list)" where
  "record_IO_and_play1 send s ADC DAC =
     (let s1 = s\<lparr>chunk_number := (chunk_number s + 1) mod CHUNK_NUMBERS\<rparr> in
      case pack (chunk_number s1) (concat ADC) of
        Inl e \<Rightarrow> Inl (e, s1, DAC)
      | Inr packed_chunk \<Rightarrow>
          (case send packed_chunk of
             Some e \<Rightarrow> Inl (e, s1, DAC)
           | None \<Rightarrow>
               (case unbuffer_next_chunk s1 of
                  Inl e \<Rightarrow> Inl (e, s1, DAC)
                | Inr chunk \<Rightarrow>
                    (case play_chunk1 s1 DAC chunk of
                       Inl (e, s3) \<Rightarrow> Inl (e, s3, DAC)
                     | Inr (s3, DAC') \<Rightarrow> Inr (s3, DAC', packed_chunk)))))"

text \<open>
  \<^verbatim>\<open>run\<close>: the first datagram is buffered and seeds the play cursor, every later one
  is buffered.
\<close>

definition run_first_receive :: "buffering \<Rightarrow> byte list \<Rightarrow> error + buffering" where
  "run_first_receive s packed_chunk =
     bind_err (receive_and_buffer s packed_chunk) (\<lambda>(s', first_received_chunk_number).
     bind_err (py_mod (first_received_chunk_number - chunks_to_buffer s') (cells_in_buffer s'))
       (\<lambda>p. Inr (s'\<lparr>played_chunk_number := p\<rparr>)))"

text \<open>
  What the two activities do to the engine, one event at a time: a datagram arrives in
  the receive loop of \<^verbatim>\<open>run\<close>, or the audio stream calls the callback for one period.
  The run is followed up to the first exception of either activity; the flag tells
  whether the first datagram has been received.
\<close>

datatype event = Datagram "byte list" | Period "frame list" ndarray

fun run_events ::
  "(byte list \<Rightarrow> error option) \<Rightarrow> bool \<Rightarrow> buffering \<Rightarrow> event list \<Rightarrow> error + buffering" where
  "run_events send seeded s [] = Inr s"
| "run_events send seeded s (Period ADC DAC # evs) =
     (case record_IO_and_play send s ADC DAC of
        Inl (e, _) \<Rightarrow> Inl e
      | Inr (s', _) \<Rightarrow> run_events send seeded s' evs)"
| "run_events send False s (Datagram packed_chunk # evs) =
     (case run_first_receive s packed_chunk of
        Inl e \<Rightarrow> Inl e
      | Inr s' \<Rightarrow> run_events send True s' evs)"
| "run_events send True s (Datagram packed_chunk # evs) =
     (case receive_and_buffer s packed_chunk of
        Inl e \<Rightarrow> Inl e
      | Inr (s', _) \<Rightarrow> run_events send True s' evs)"

definition run :: "(byte list \<Rightarrow> error option) \<Rightarrow> buffering \<Rightarrow> event list \<Rightarrow> error + buffering" where
  "run send s evs = run_events send False (s\<lparr>played_chunk_number := 0\<rparr>) evs"

text \<open>
  Two transports for the parameter \<^verbatim>\<open>send\<close>: one that takes every datagram, and one
  whose socket fails on every datagram.
\<close>

definition send_ok :: "byte list \<Rightarrow> error option" where
  "send_ok packed_chunk = None"

definition send_fails :: "byte list \<Rightarrow> error option" where
  "send_fails packed_chunk = Some OSError"

section \<open>Codec lemmas\<close>

lemma sample_of_bytes:
  "push_bit 8 (ucast (ucast (drop_bit 8 x) :: byte)) OR ucast (ucast x :: byte) = (x :: sample)"
  by (rule bit_word_eqI) (auto simp add: bit_simps)

lemma int16_of_tobytes: "int16_of_bytes (tobytes chunk) = chunk"
  by (induction chunk) (simp_all add: tobytes_def sample_bytes_def sample_of_bytes)

lemma length_tobytes: "length (tobytes chunk) = 2 * length chunk"
  by (induction chunk) (simp_all add: tobytes_def sample_bytes_def)

lemma frombuffer_tobytes: "frombuffer (tobytes chunk) = Inr chunk"
  by (simp add: frombuffer_def length_tobytes int16_of_tobytes)

lemma struct_unpack_pack:
  assumes "0 \<le> n" "n \<le> 65535"
  shows "struct_unpack_H [word_of_int (n div 256), word_of_int (n mod 256)] = Inr n"
proof -
  have "n div 256 < 256" using assms by simp
  moreover have "0 \<le> n div 256" using assms by simp
  ultimately have "uint (word_of_int (n div 256) :: byte) = n div 256"
    by (simp add: uint_word_of_int take_bit_eq_mod)
  moreover have "uint (word_of_int (n mod 256) :: byte) = n mod 256"
    by (simp add: uint_word_of_int take_bit_eq_mod)
  ultimately show ?thesis by simp
qed

lemma pack_in_range:
  assumes "0 \<le> n" "n \<le> 65535"
  shows "pack n chunk = Inr ([word_of_int (n div 256), word_of_int (n mod 256)] @ tobytes chunk)"
  using assms by (simp add: pack_def struct_pack_H_def)

lemma unpack_header:
  "unpack (hi # lo # payload) =
     (case frombuffer payload of
        Inl e \<Rightarrow> Inl e
      | Inr chunk \<Rightarrow> Inr (uint hi * 256 + uint lo, chunk))"
  by (simp add: unpack_def)

lemma unpack_pack:
  assumes "0 \<le> n" "n \<le> 65535"
  shows "unpack ([word_of_int (n div 256), word_of_int (n mod 256)] @ tobytes chunk)
           = Inr (n, chunk)"
  using struct_unpack_pack [OF assms] by (simp add: unpack_def frombuffer_tobytes)

lemma struct_unpack_short: "length bs < 2 \<Longrightarrow> struct_unpack_H bs = Inl StructError"
  by (cases bs rule: struct_unpack_H.cases) simp_all

section \<open>The codec claims\<close>

text \<open>
  C1. Round trip: for a sequence number in the range of the 16-bit field and any block of
  int16 samples, \<open>pack\<close> returns a datagram and \<open>unpack\<close> of that datagram returns the
  sequence number and the samples.
\<close>

theorem codec_round_trip:
  assumes "0 \<le> seq" "seq < 65536"
  shows "\<exists>bs. pack seq samples = Inr bs \<and> unpack bs = Inr (seq, samples)"
  using assms pack_in_range [of seq samples] unpack_pack [of seq samples] by simp

theorem codec_round_trip_witness:
  "(0::int) \<le> 100 \<and> (100::int) < 65536 \<and>
   (\<exists>bs. pack 100 [1, - 2, 3] = Inr bs \<and> unpack bs = Inr (100, [1, - 2, 3]))"
  using codec_round_trip [of 100 "[1, - 2, 3]"] by simp

text \<open>
  C7. Malformed input: \<open>unpack\<close> raises on every datagram shorter than two bytes (the
  \<^verbatim>\<open>struct.error\<close> of the header) and on every datagram whose payload after the two
  bytes of the header has an odd number of bytes (the \<^verbatim>\<open>ValueError\<close> of
  \<^verbatim>\<open>np.frombuffer\<close>); it returns no value for them.
\<close>

theorem unpack_rejects_malformed:
  "(length bs < 2 \<longrightarrow> unpack bs = Inl StructError) \<and>
   (2 \<le> length bs \<and> (length bs - 2) mod 2 \<noteq> 0 \<longrightarrow> unpack bs = Inl ValueError)"
proof (intro conjI impI)
  assume "length bs < 2"
  then show "unpack bs = Inl StructError"
    by (simp add: unpack_def struct_unpack_short)
next
  assume h: "2 \<le> length bs \<and> (length bs - 2) mod 2 \<noteq> 0"
  then obtain hi lo payload where bs: "bs = hi # lo # payload"
    by (cases bs; cases "tl bs") auto
  with h show "unpack bs = Inl ValueError"
    by (simp add: unpack_header frombuffer_def)
qed

theorem unpack_rejects_malformed_witness:
  "length [7 :: byte] < 2 \<and> unpack [7] = Inl StructError \<and>
   2 \<le> length [0, 1, 2 :: byte] \<and> (length [0, 1, 2 :: byte] - 2) mod 2 \<noteq> 0 \<and>
   unpack [0, 1, 2] = Inl ValueError"
  using unpack_rejects_malformed [of "[7]"] unpack_rejects_malformed [of "[0, 1, 2]"] by simp

text \<open>
  C10. \<open>pack\<close> returns a datagram of two bytes more than the samples take for every
  sequence number from 0 to 65535, and raises \<^verbatim>\<open>struct.error\<close> for every other one:
  the number is never truncated or wrapped into the field.
\<close>

theorem pack_sequence_range:
  "(0 \<le> n \<and> n < 65536 \<longrightarrow>
      (\<exists>bs. pack n chunk = Inr bs \<and> length bs = 2 + 2 * length chunk)) \<and>
   (n < 0 \<or> 65536 \<le> n \<longrightarrow> pack n chunk = Inl StructError)"
  by (auto simp add: pack_def struct_pack_H_def length_tobytes)

theorem pack_sequence_range_witness:
  "(0::int) \<le> 65535 \<and> (65535::int) < 65536 \<and>
   (\<exists>bs. pack 65535 [5] = Inr bs \<and> length bs = 2 + 2 * length [5 :: sample]) \<and>
   (65536::int) \<le> 65536 \<and> pack 65536 [5] = Inl StructError \<and>
   (- 1 :: int) < 0 \<and> pack (- 1) [5] = Inl StructError"
  using pack_sequence_range [of 65535 "[5]"] pack_sequence_range [of 65536 "[5]"]
    pack_sequence_range [of "- 1" "[5]"] by simp

section \<open>Lemmas on the engine\<close>

lemma chunks_in_buffer_range:
  assumes "0 < cells_in_buffer s"
  shows "\<exists>c. chunks_in_buffer s = Inr c \<and> 0 \<le> c \<and> c < cells_in_buffer s"
  using assms by (simp add: chunks_in_buffer_def py_mod_def)

lemma buffer_chunk_fields:
  assumes "buffer_chunk s n chunk = Inr s'"
  shows "cells_in_buffer s' = cells_in_buffer s" "chunks_to_buffer s' = chunks_to_buffer s"
    "chunk_number s' = chunk_number s" "played_chunk_number s' = played_chunk_number s"
    "length (buffer s') = length (buffer s)"
  using assms
  by (auto simp add: buffer_chunk_def bind_err_def split: sum.splits)

lemma receive_and_buffer_fields:
  assumes "receive_and_buffer s p = Inr (s', n)"
  shows "cells_in_buffer s' = cells_in_buffer s" "chunks_to_buffer s' = chunks_to_buffer s"
    "chunk_number s' = chunk_number s" "played_chunk_number s' = played_chunk_number s"
    "length (buffer s') = length (buffer s)"
  using assms buffer_chunk_fields
  by (auto simp add: receive_and_buffer_def bind_err_def split: sum.splits prod.splits)

lemma run_first_receive_cells:
  assumes "run_first_receive s p = Inr s'"
  shows "cells_in_buffer s' = cells_in_buffer s"
  using assms receive_and_buffer_fields(1)
  by (auto simp add: run_first_receive_def bind_err_def split: sum.splits prod.splits)

lemma adjust_playback_speed_fields:
  assumes "adjust_playback_speed s = Inr s'"
  shows "cells_in_buffer s' = cells_in_buffer s" "played_chunk_number s' = played_chunk_number s"
    "chunk_number s' = chunk_number s" "buffer s' = buffer s"
    "frames_per_chunk s' = frames_per_chunk s" "NUMBER_OF_CHANNELS s' = NUMBER_OF_CHANNELS s"
  using assms
  by (auto simp add: adjust_playback_speed_def bind_err_def split: sum.splits)

lemma play_chunk_fields:
  assumes "play_chunk s DAC chunk = Inr (s', DAC')"
  shows "cells_in_buffer s' = cells_in_buffer s" "chunk_number s' = chunk_number s"
    "played_chunk_number s' = (played_chunk_number s + 1) mod cells_in_buffer s"
  using assms
  by (auto simp add: play_chunk_def py_mod_def Let_def split: sum.splits if_splits)

lemma record_IO_and_play_cells:
  assumes "record_IO_and_play send s ADC DAC = Inr (s', DAC', p)"
  shows "cells_in_buffer s' = cells_in_buffer s"
  using assms
  by (auto simp add: record_IO_and_play_def Let_def
      dest!: adjust_playback_speed_fields(1) play_chunk_fields(1)
      split: sum.splits option.splits prod.splits)

lemma run_events_cells:
  "run_events send seeded s evs = Inr s' \<Longrightarrow> cells_in_buffer s' = cells_in_buffer s"
proof (induction send seeded s evs rule: run_events.induct)
  case (1 send seeded s)
  then show ?case by simp
next
  case (2 send seeded s ADC DAC evs)
  then show ?case
    by (auto split: sum.splits prod.splits dest: record_IO_and_play_cells)
next
  case (3 send s packed_chunk evs)
  then show ?case
    by (auto split: sum.splits dest: run_first_receive_cells)
next
  case (4 send s packed_chunk evs)
  then show ?case
    by (auto split: sum.splits prod.splits dest: receive_and_buffer_fields(1))
qed

section \<open>The ring and the rate controller\<close>

text \<open>
  C2. Occupancy stays in range: after any sequence of datagrams and callback periods that
  the engine runs through from its initial state, with at least one chunk to buffer, the
  occupancy \<open>(chunk_number - played_chunk_number) mod cells_in_buffer\<close> is computed and
  lies from 0 up to, but not including, \<open>cells_in_buffer\<close>. The sequence counter wraps
  inside the callback, so this covers the states after a wrap-around.
\<close>

theorem occupancy_in_range:
  assumes "0 < ctb" and "run send (init fpc nch ctb) evs = Inr s"
  shows "\<exists>c. chunks_in_buffer s = Inr c \<and> 0 \<le> c \<and> c < cells_in_buffer s"
proof -
  have "cells_in_buffer s = ctb * 2"
    using run_events_cells [of send False _ evs s] assms(2)
    by (simp add: run_def init_def)
  with assms(1) show ?thesis by (intro chunks_in_buffer_range) simp
qed

theorem occupancy_in_range_witness:
  "(0::int) < 2 \<and>
   run send_ok (init 1 1 2)
     [Period [ [1]] \<lparr>channels = 1, frames = [ [9]]\<rparr>, Datagram [0, 100, 7, 0], Datagram [0, 101, 8, 0], Period [ [2]] \<lparr>channels = 1, frames = [ [9]]\<rparr>]
     = Inr \<lparr>frames_per_chunk = 1, NUMBER_OF_CHANNELS = 1, chunks_to_buffer = 2,
          cells_in_buffer = 4, buffer = [ [7], [8], [0], [0]], chunk_number = 2,
          played_chunk_number = 3, playback_speed = 105 / 100\<rparr> \<and>
   (\<exists>c. chunks_in_buffer \<lparr>frames_per_chunk = 1, NUMBER_OF_CHANNELS = 1, chunks_to_buffer = 2,
          cells_in_buffer = 4, buffer = [ [7], [8], [0], [0]], chunk_number = 2,
          played_chunk_number = 3, playback_speed = 105 / 100\<rparr> = Inr c \<and> 0 \<le> c \<and> c < 4)"
proof -
  have r: "run send_ok (init 1 1 2)
     [Period [ [1]] \<lparr>channels = 1, frames = [ [9]]\<rparr>, Datagram [0, 100, 7, 0], Datagram [0, 101, 8, 0], Period [ [2]] \<lparr>channels = 1, frames = [ [9]]\<rparr>]
     = Inr \<lparr>frames_per_chunk = 1, NUMBER_OF_CHANNELS = 1, chunks_to_buffer = 2,
          cells_in_buffer = 4, buffer = [ [7], [8], [0], [0]], chunk_number = 2,
          played_chunk_number = 3, playback_speed = 105 / 100\<rparr>"
    by code_simp
  have p: "(0::int) < 2" by simp
  show ?thesis using occupancy_in_range [OF p r] r by simp
qed

text \<open>
  C3. The rate controller is total and follows the table, the rows read in their order:
  whenever the ring has cells, the occupancy \<open>c\<close> is computed and the controller returns
  the engine with nothing but the fill ratio changed, which is 1.05 when
  \<open>c \<ge> chunks_to_buffer - 2\<close>, and otherwise 0.95 for \<open>c = 3\<close>, 0.80 for \<open>c = 2\<close>,
  0.60 for \<open>c = 1\<close> and 1.00 for every other \<open>c\<close>. Where the first row overlaps a later
  one, the first row decides.
\<close>

theorem rate_controller_table:
  assumes "cells_in_buffer s \<noteq> 0"
  shows "\<exists>c s'. chunks_in_buffer s = Inr c \<and> adjust_playback_speed s = Inr s' \<and>
     s' = s\<lparr>playback_speed := playback_speed s'\<rparr> \<and>
     (chunks_to_buffer s - 2 \<le> c \<longrightarrow> playback_speed s' = 105 / 100) \<and>
     (c < chunks_to_buffer s - 2 \<and> c = 3 \<longrightarrow> playback_speed s' = 95 / 100) \<and>
     (c < chunks_to_buffer s - 2 \<and> c = 2 \<longrightarrow> playback_speed s' = 80 / 100) \<and>
     (c < chunks_to_buffer s - 2 \<and> c = 1 \<longrightarrow> playback_speed s' = 60 / 100) \<and>
     (c < chunks_to_buffer s - 2 \<and> c \<noteq> 3 \<and> c \<noteq> 2 \<and> c \<noteq> 1 \<longrightarrow> playback_speed s' = 1)"
  using assms
  by (simp add: adjust_playback_speed_def chunks_in_buffer_def py_mod_def bind_err_def)

theorem rate_controller_table_witness:
  "cells_in_buffer (init 1 1 7) \<noteq> 0 \<and>
   (\<exists>s'. adjust_playback_speed ((init 1 1 7)\<lparr>chunk_number := 5\<rparr>) = Inr s' \<and> playback_speed s' = 105 / 100) \<and>
   (\<exists>s'. adjust_playback_speed ((init 1 1 7)\<lparr>chunk_number := 3\<rparr>) = Inr s' \<and> playback_speed s' = 95 / 100) \<and>
   (\<exists>s'. adjust_playback_speed ((init 1 1 7)\<lparr>chunk_number := 2\<rparr>) = Inr s' \<and> playback_speed s' = 80 / 100) \<and>
   (\<exists>s'. adjust_playback_speed ((init 1 1 7)\<lparr>chunk_number := 1\<rparr>) = Inr s' \<and> playback_speed s' = 60 / 100) \<and>
   (\<exists>s'. adjust_playback_speed ((init 1 1 7)\<lparr>chunk_number := 4\<rparr>) = Inr s' \<and> playback_speed s' = 1) \<and>
   (\<exists>s'. adjust_playback_speed (init 1 1 7) = Inr s' \<and> playback_speed s' = 1) \<and>
   (\<exists>s'. adjust_playback_speed ((init 1 1 5)\<lparr>chunk_number := 3\<rparr>) = Inr s' \<and> playback_speed s' = 105 / 100)"
proof -
  note ev = chunks_in_buffer_def py_mod_def init_def
  have "\<exists>s'. adjust_playback_speed ((init 1 1 7)\<lparr>chunk_number := 5\<rparr>) = Inr s' \<and> playback_speed s' = 105 / 100"
    using rate_controller_table [of "(init 1 1 7)\<lparr>chunk_number := 5\<rparr>"] by (auto simp add: ev)
  moreover have "\<exists>s'. adjust_playback_speed ((init 1 1 7)\<lparr>chunk_number := 3\<rparr>) = Inr s' \<and> playback_speed s' = 95 / 100"
    using rate_controller_table [of "(init 1 1 7)\<lparr>chunk_number := 3\<rparr>"] by (auto simp add: ev)
  moreover have "\<exists>s'. adjust_playback_speed ((init 1 1 7)\<lparr>chunk_number := 2\<rparr>) = Inr s' \<and> playback_speed s' = 80 / 100"
    using rate_controller_table [of "(init 1 1 7)\<lparr>chunk_number := 2\<rparr>"] by (auto simp add: ev)
  moreover have "\<exists>s'. adjust_playback_speed ((init 1 1 7)\<lparr>chunk_number := 1\<rparr>) = Inr s' \<and> playback_speed s' = 60 / 100"
    using rate_controller_table [of "(init 1 1 7)\<lparr>chunk_number := 1\<rparr>"] by (auto simp add: ev)
  moreover have "\<exists>s'. adjust_playback_speed ((init 1 1 7)\<lparr>chunk_number := 4\<rparr>) = Inr s' \<and> playback_speed s' = 1"
    using rate_controller_table [of "(init 1 1 7)\<lparr>chunk_number := 4\<rparr>"] by (auto simp add: ev)
  moreover have "\<exists>s'. adjust_playback_speed (init 1 1 7) = Inr s' \<and> playback_speed s' = 1"
    using rate_controller_table [of "init 1 1 7"] by (auto simp add: ev)
  moreover have "\<exists>s'. adjust_playback_speed ((init 1 1 5)\<lparr>chunk_number := 3\<rparr>) = Inr s' \<and> playback_speed s' = 105 / 100"
    using rate_controller_table [of "(init 1 1 5)\<lparr>chunk_number := 3\<rparr>"] by (auto simp add: ev)
  moreover have "cells_in_buffer (init 1 1 7) \<noteq> 0" by (simp add: init_def)
  ultimately show ?thesis by blast
qed

text \<open>
  C4. Seeding: when the first datagram decodes to the sequence number \<open>n\<close>, it is
  buffered and the play cursor becomes \<open>(n - chunks_to_buffer) mod cells_in_buffer\<close>.
  With 5 chunks to buffer, 10 cells and the first sequence number 100 the cursor is 5.
\<close>

theorem first_datagram_seeds_play_cursor:
  assumes "0 < cells_in_buffer s" "length (buffer s) = nat (cells_in_buffer s)"
    and "unpack packed_chunk = Inr (n, chunk)"
  shows "\<exists>s'. run_first_receive s packed_chunk = Inr s' \<and>
     played_chunk_number s' = (n - chunks_to_buffer s) mod cells_in_buffer s"
proof -
  have "0 \<le> n mod cells_in_buffer s" "n mod cells_in_buffer s < cells_in_buffer s"
    using assms(1) by simp_all
  then have "py_index (buffer s) (n mod cells_in_buffer s) = Inr (nat (n mod cells_in_buffer s))"
    using assms(2) by (simp add: py_index_def Let_def)
  then show ?thesis
    using assms(1,3)
    by (simp add: run_first_receive_def receive_and_buffer_def buffer_chunk_def bind_err_def py_mod_def)
qed

theorem first_datagram_seeds_play_cursor_witness:
  "0 < cells_in_buffer (init 1 1 5) \<and>
   length (buffer (init 1 1 5)) = nat (cells_in_buffer (init 1 1 5)) \<and>
   unpack [0, 100, 7, 0] = Inr (100, [7]) \<and>
   chunks_to_buffer (init 1 1 5) = 5 \<and> cells_in_buffer (init 1 1 5) = 10 \<and>
   (\<exists>s'. run_first_receive (init 1 1 5) [0, 100, 7, 0] = Inr s' \<and> played_chunk_number s' = 5)"
proof -
  have a: "0 < cells_in_buffer (init 1 1 5)" by (simp add: init_def)
  have b: "length (buffer (init 1 1 5)) = nat (cells_in_buffer (init 1 1 5))"
    by (simp add: init_def)
  have c: "unpack [0, 100, 7, 0] = Inr (100, [7])" by code_simp
  show ?thesis using first_datagram_seeds_play_cursor [OF a b c] a b c by (simp add: init_def)
qed

section \<open>Lemmas on the callback\<close>

lemma length_rows_of: "length (rows_of rows cols xs) = rows"
  by (induction rows arbitrary: xs) simp_all

lemma slice_bound_nonneg: "0 \<le> k \<Longrightarrow> slice_bound n k = min n (nat k)"
  by (simp add: slice_bound_def)

lemma map_broadcast_frame_same: "map (broadcast_frame w w) fs = fs"
  by (induction fs) (simp_all add: broadcast_frame_def)

lemma assign_prefix_same_shape:
  assumes "length src = slice_bound (length (frames DAC)) k" "cols = channels DAC"
  shows "assign_prefix DAC k cols src
           = Inr (DAC\<lparr>frames := src @ drop (length src) (frames DAC)\<rparr>)"
  using assms by (simp add: assign_prefix_def Let_def map_broadcast_frame_same)

lemma zero_from_bound:
  assumes "slice_bound (length (frames A)) k = m"
  shows "zero_from A k
           = A\<lparr>frames := take m (frames A)
                 @ map (\<lambda>f. replicate (length f) 0) (drop m (frames A))\<rparr>"
  using assms by (simp add: zero_from_def)

lemma play_chunk_result:
  assumes cells: "cells_in_buffer s \<noteq> 0"
    and chunk: "length chunk = frames_per_chunk s * NUMBER_OF_CHANNELS s"
    and DAC: "length (frames DAC) = frames_per_chunk s"
    and cols: "channels DAC = NUMBER_OF_CHANNELS s"
    and speed: "0 \<le> playback_speed s"
  shows "play_chunk s DAC chunk =
     Inr (s\<lparr>played_chunk_number := (played_chunk_number s + 1) mod cells_in_buffer s\<rparr>,
          DAC\<lparr>frames :=
            (let k = min (frames_per_chunk s)
                       (nat \<lfloor>of_nat (frames_per_chunk s) * playback_speed s\<rfloor>)
             in take k (rows_of (frames_per_chunk s) (NUMBER_OF_CHANNELS s) chunk)
                @ map (\<lambda>f. replicate (length f) 0) (drop k (frames DAC)))\<rparr>)"
proof -
  define fpc where "fpc = frames_per_chunk s"
  define rows where "rows = rows_of fpc (NUMBER_OF_CHANNELS s) chunk"
  define af where "af = py_int (of_nat fpc * playback_speed s)"
  define k where "k = min fpc (nat af)"
  define fs where "fs = frames DAC"
  have lfs: "length fs = fpc" by (simp add: fs_def DAC fpc_def)
  have prod: "0 \<le> of_nat fpc * playback_speed s" using speed by simp
  then have af: "af = \<lfloor>of_nat fpc * playback_speed s\<rfloor>" "0 \<le> af"
    by (simp_all add: af_def py_int_def)
  have lrows: "length rows = fpc" by (simp add: rows_def length_rows_of)
  have sb: "slice_bound fpc af = k" using af(2) by (simp add: slice_bound_nonneg k_def)
  have kle: "k \<le> fpc" by (simp add: k_def)
  have ltake: "length (take k rows) = k" using kle by (simp add: lrows)
  have asg: "assign_prefix DAC af (NUMBER_OF_CHANNELS s) (take k rows)
               = Inr (DAC\<lparr>frames := take k rows @ drop k fs\<rparr>)"
    using assign_prefix_same_shape [of "take k rows" DAC af "NUMBER_OF_CHANNELS s"] kle
    by (simp add: lrows lfs [unfolded fs_def] sb cols fs_def)
  have len': "length (take k rows @ drop k fs) = fpc"
    using kle by (simp add: lrows lfs)
  have m: "slice_bound (length (take k rows @ drop k fs)) af = k"
    unfolding len' by (rule sb)
  have zf: "zero_from (DAC\<lparr>frames := take k rows @ drop k fs\<rparr>) af
              = DAC\<lparr>frames := take k rows @ map (\<lambda>f. replicate (length f) 0) (drop k fs)\<rparr>"
    using zero_from_bound [of "DAC\<lparr>frames := take k rows @ drop k fs\<rparr>" af k] m kle
    by (simp add: lrows)
  have full: "\<not> af < int fpc \<Longrightarrow> take k rows @ drop k fs
                = take k rows @ map (\<lambda>f. replicate (length f) 0) (drop k fs)"
    using af(2) by (simp add: k_def lfs)
  have rs: "reshape fpc (NUMBER_OF_CHANNELS s) chunk = Inr rows"
    using chunk by (simp add: reshape_def rows_def fpc_def)
  show ?thesis
    using cells rs asg zf full
    unfolding play_chunk_def py_mod_def Let_def
    by (simp add: fpc_def [symmetric] af_def [symmetric] lrows sb k_def [symmetric]
        rows_def [symmetric] af(1) [symmetric] fs_def [symmetric])
qed

lemma CHUNK_NUMBERS_eq: "CHUNK_NUMBERS = 32768"
  by (simp add: CHUNK_NUMBERS_def)

lemma next_number_range:
  "0 \<le> (n + 1) mod CHUNK_NUMBERS" "(n + 1) mod CHUNK_NUMBERS < 32768"
  by (simp_all add: CHUNK_NUMBERS_eq)

lemma pack_next_number:
  "\<exists>p. pack ((n + 1) mod CHUNK_NUMBERS) chunk = Inr p \<and>
       unpack p = Inr ((n + 1) mod CHUNK_NUMBERS, chunk)"
proof -
  have "0 \<le> (n + 1) mod CHUNK_NUMBERS" "(n + 1) mod CHUNK_NUMBERS \<le> 65535"
    using next_number_range [of n] by simp_all
  then show ?thesis
    using pack_in_range unpack_pack by simp
qed

lemma unbuffer_next_chunk_result:
  assumes "0 < cells_in_buffer s" "length (buffer s) = nat (cells_in_buffer s)"
  shows "unbuffer_next_chunk s
           = Inr (buffer s ! nat (played_chunk_number s mod cells_in_buffer s))"
proof -
  have "0 \<le> played_chunk_number s mod cells_in_buffer s"
    "played_chunk_number s mod cells_in_buffer s < cells_in_buffer s"
    using assms(1) by simp_all
  then have "py_index (buffer s) (played_chunk_number s mod cells_in_buffer s)
               = Inr (nat (played_chunk_number s mod cells_in_buffer s))"
    using assms(2) by (simp add: py_index_def Let_def)
  then show ?thesis
    using assms(1) by (simp add: unbuffer_next_chunk_def bind_err_def py_mod_def)
qed

lemma adjust_playback_speed_result:
  assumes "cells_in_buffer s \<noteq> 0"
  shows "\<exists>r. 0 \<le> r \<and> adjust_playback_speed s = Inr (s\<lparr>playback_speed := r\<rparr>)"
proof -
  obtain c where c: "chunks_in_buffer s = Inr c"
    using assms by (simp add: chunks_in_buffer_def py_mod_def)
  define r :: rat where "r = (if c \<ge> chunks_to_buffer s - 2 then 105 / 100
        else if c = 3 then 95 / 100
        else if c = 2 then 80 / 100
        else if c = 1 then 60 / 100
        else 1)"
  have "0 \<le> r" by (simp add: r_def)
  moreover have "adjust_playback_speed s = Inr (s\<lparr>playback_speed := r\<rparr>)"
    unfolding adjust_playback_speed_def c bind_err_def r_def by simp
  ultimately show ?thesis by blast
qed

lemma play_chunk1_result:
  assumes cells: "cells_in_buffer s \<noteq> 0"
    and chunk: "length chunk = frames_per_chunk s * NUMBER_OF_CHANNELS s"
    and DAC: "length (frames DAC) = frames_per_chunk s"
    and cols: "channels DAC = NUMBER_OF_CHANNELS s"
  shows "play_chunk1 s DAC chunk =
     Inr (s\<lparr>played_chunk_number := (played_chunk_number s + 1) mod cells_in_buffer s\<rparr>,
          DAC\<lparr>frames := rows_of (frames_per_chunk s) (NUMBER_OF_CHANNELS s) chunk\<rparr>)"
proof -
  let ?rows = "rows_of (frames_per_chunk s) (NUMBER_OF_CHANNELS s) chunk"
  have "assign_prefix DAC (int (length (frames DAC))) (NUMBER_OF_CHANNELS s) ?rows
          = Inr (DAC\<lparr>frames := ?rows @ drop (length ?rows) (frames DAC)\<rparr>)"
    by (rule assign_prefix_same_shape) (simp_all add: length_rows_of DAC cols slice_bound_def)
  then show ?thesis
    using cells chunk
    by (simp add: play_chunk1_def py_mod_def reshape_def length_rows_of DAC Let_def)
qed

lemma zeroed_frames:
  assumes "\<forall>f \<in> set fs. length f = n"
  shows "map (\<lambda>f. replicate (length f) 0) (drop k fs)
           = replicate (length fs - k) (replicate n (0 :: sample))"
proof -
  have "map (\<lambda>f. replicate (length f) 0) (drop k fs)
          = map (\<lambda>f. replicate n (0 :: sample)) (drop k fs)"
    using assms by (auto dest: in_set_dropD)
  then show ?thesis by (simp add: map_replicate_const)
qed

lemma record_IO_and_play_send_raises:
  assumes "pack ((chunk_number s + 1) mod CHUNK_NUMBERS) (concat ADC) = Inr p"
    and "send p = Some e"
  shows "record_IO_and_play send s ADC DAC
          = Inl (e, s\<lparr>chunk_number := (chunk_number s + 1) mod CHUNK_NUMBERS\<rparr>, DAC)"
    and "record_IO_and_play1 send s ADC DAC
          = Inl (e, s\<lparr>chunk_number := (chunk_number s + 1) mod CHUNK_NUMBERS\<rparr>, DAC)"
  using assms by (simp_all add: record_IO_and_play_def record_IO_and_play1_def)

lemma record_IO_and_play_returns:
  assumes p: "pack ((chunk_number s + 1) mod CHUNK_NUMBERS) (concat ADC) = Inr p"
    and sent: "send p = None" and cells: "0 < cells_in_buffer s"
    and len: "length (buffer s) = nat (cells_in_buffer s)"
    and due: "length (buffer s ! nat (played_chunk_number s mod cells_in_buffer s))
        = frames_per_chunk s * NUMBER_OF_CHANNELS s"
    and DAC: "length (frames DAC) = frames_per_chunk s"
    and cols: "channels DAC = NUMBER_OF_CHANNELS s"
  shows "\<exists>s' DAC'. record_IO_and_play send s ADC DAC = Inr (s', DAC', p) \<and>
           played_chunk_number s' = (played_chunk_number s + 1) mod cells_in_buffer s"
proof -
  let ?s1 = "s\<lparr>chunk_number := (chunk_number s + 1) mod CHUNK_NUMBERS\<rparr>"
  let ?chunk = "buffer s ! nat (played_chunk_number s mod cells_in_buffer s)"
  obtain r where r: "0 \<le> r" "adjust_playback_speed ?s1 = Inr (?s1\<lparr>playback_speed := r\<rparr>)"
    using adjust_playback_speed_result [of ?s1] cells by auto
  let ?s2 = "?s1\<lparr>playback_speed := r\<rparr>"
  have u2: "unbuffer_next_chunk ?s2 = Inr ?chunk"
    using unbuffer_next_chunk_result [of ?s2] cells len by simp
  obtain s3 DAC' where pc: "play_chunk ?s2 DAC ?chunk = Inr (s3, DAC')"
    and s3: "played_chunk_number s3 = (played_chunk_number s + 1) mod cells_in_buffer s"
    using play_chunk_result [of ?s2 ?chunk DAC] cells due DAC cols r(1) by simp
  have "record_IO_and_play send s ADC DAC = Inr (s3, DAC', p)"
    by (simp add: record_IO_and_play_def p sent r(2) u2 pc)
  with s3 show ?thesis by blast
qed

lemma record_IO_and_play1_returns:
  assumes p: "pack ((chunk_number s + 1) mod CHUNK_NUMBERS) (concat ADC) = Inr p"
    and sent: "send p = None" and cells: "0 < cells_in_buffer s"
    and len: "length (buffer s) = nat (cells_in_buffer s)"
    and due: "length (buffer s ! nat (played_chunk_number s mod cells_in_buffer s))
        = frames_per_chunk s * NUMBER_OF_CHANNELS s"
    and DAC: "length (frames DAC) = frames_per_chunk s"
    and cols: "channels DAC = NUMBER_OF_CHANNELS s"
  shows "\<exists>s' DAC'. record_IO_and_play1 send s ADC DAC = Inr (s', DAC', p) \<and>
           played_chunk_number s' = (played_chunk_number s + 1) mod cells_in_buffer s"
proof -
  let ?s1 = "s\<lparr>chunk_number := (chunk_number s + 1) mod CHUNK_NUMBERS\<rparr>"
  let ?chunk = "buffer s ! nat (played_chunk_number s mod cells_in_buffer s)"
  have u1: "unbuffer_next_chunk ?s1 = Inr ?chunk"
    using unbuffer_next_chunk_result [of ?s1] cells len by simp
  obtain s3 DAC' where pc: "play_chunk1 ?s1 DAC ?chunk = Inr (s3, DAC')"
    and s3: "played_chunk_number s3 = (played_chunk_number s + 1) mod cells_in_buffer s"
    using play_chunk1_result [of ?s1 ?chunk DAC] cells due DAC cols by simp
  have "record_IO_and_play1 send s ADC DAC = Inr (s3, DAC', p)"
    by (simp add: record_IO_and_play1_def p sent u1 pc)
  with s3 show ?thesis by blast
qed

lemma play_chunk1_fields:
  assumes "play_chunk1 s DAC chunk = Inr (s', DAC')"
  shows "cells_in_buffer s' = cells_in_buffer s" "chunk_number s' = chunk_number s"
  using assms
  by (auto simp add: play_chunk1_def py_mod_def Let_def split: sum.splits if_splits)

lemma record_IO_and_play_sent:
  assumes "record_IO_and_play send s ADC DAC = Inr (s', DAC', p)"
  shows "chunk_number s' = (chunk_number s + 1) mod CHUNK_NUMBERS"
    and "pack ((chunk_number s + 1) mod CHUNK_NUMBERS) (concat ADC) = Inr p"
  using assms
  by (auto simp add: record_IO_and_play_def Let_def
      dest!: adjust_playback_speed_fields(3) play_chunk_fields(2)
      split: sum.splits option.splits prod.splits)

lemma record_IO_and_play1_sent:
  assumes "record_IO_and_play1 send s ADC DAC = Inr (s', DAC', p)"
  shows "chunk_number s' = (chunk_number s + 1) mod CHUNK_NUMBERS"
    and "pack ((chunk_number s + 1) mod CHUNK_NUMBERS) (concat ADC) = Inr p"
  using assms
  by (auto simp add: record_IO_and_play1_def Let_def
      dest!: play_chunk1_fields(2)
      split: sum.splits option.splits prod.splits)

section \<open>The playback driver\<close>

text \<open>
  C6, as the code has it. With a ring that has cells, a due chunk of
  \<open>frames_per_chunk * NUMBER_OF_CHANNELS\<close> samples, an output array of
  \<open>frames_per_chunk\<close> frames of \<open>NUMBER_OF_CHANNELS\<close> samples each and a fill ratio
  \<open>r \<ge> 0\<close>, \<open>play_chunk\<close> returns, and the output array holds the first \<open>k\<close> frames of
  the chunk followed by frames of zeros up to \<open>frames_per_chunk\<close>, where \<open>k\<close> is
  \<open>frames_per_chunk * r\<close> truncated to an integer (not rounded) and then clamped to
  \<open>frames_per_chunk\<close>.
\<close>

theorem play_chunk_fill:
  assumes "cells_in_buffer s \<noteq> 0"
    and "length chunk = frames_per_chunk s * NUMBER_OF_CHANNELS s"
    and "length (frames DAC) = frames_per_chunk s"
    and "channels DAC = NUMBER_OF_CHANNELS s"
    and "\<forall>f \<in> set (frames DAC). length f = NUMBER_OF_CHANNELS s"
    and "0 \<le> playback_speed s"
  shows "\<exists>s'. play_chunk s DAC chunk =
     Inr (s', DAC\<lparr>frames :=
            (let k = min (frames_per_chunk s)
                       (nat \<lfloor>of_nat (frames_per_chunk s) * playback_speed s\<rfloor>)
             in take k (rows_of (frames_per_chunk s) (NUMBER_OF_CHANNELS s) chunk)
                @ replicate (frames_per_chunk s - k)
                    (replicate (NUMBER_OF_CHANNELS s) 0))\<rparr>)"
  using play_chunk_result [OF assms(1-4,6)] zeroed_frames [OF assms(5)]
  by (simp add: Let_def assms(3))

theorem play_chunk_fill_witness:
  "cells_in_buffer ((init 4 2 7)\<lparr>chunk_number := 3, playback_speed := 95 / 100\<rparr>) \<noteq> 0 \<and>
   length [1, 2, 3, 4, 5, 6, 7, 8 :: sample]
     = frames_per_chunk ((init 4 2 7)\<lparr>chunk_number := 3, playback_speed := 95 / 100\<rparr>)
       * NUMBER_OF_CHANNELS ((init 4 2 7)\<lparr>chunk_number := 3, playback_speed := 95 / 100\<rparr>) \<and>
   length (frames \<lparr>channels = 2, frames = [ [9, 9], [9, 9], [9, 9], [9, 9]]\<rparr>)
     = frames_per_chunk ((init 4 2 7)\<lparr>chunk_number := 3, playback_speed := 95 / 100\<rparr>) \<and>
   channels \<lparr>channels = 2, frames = [ [9, 9], [9, 9], [9, 9], [9, 9]]\<rparr>
     = NUMBER_OF_CHANNELS ((init 4 2 7)\<lparr>chunk_number := 3, playback_speed := 95 / 100\<rparr>) \<and>
   map length (frames \<lparr>channels = 2, frames = [ [9, 9], [9, 9], [9, 9], [9, 9 :: sample]]\<rparr>)
     = replicate 4
         (NUMBER_OF_CHANNELS ((init 4 2 7)\<lparr>chunk_number := 3, playback_speed := 95 / 100\<rparr>)) \<and>
   0 \<le> playback_speed ((init 4 2 7)\<lparr>chunk_number := 3, playback_speed := 95 / 100\<rparr>) \<and>
   (\<exists>s'. play_chunk ((init 4 2 7)\<lparr>chunk_number := 3, playback_speed := 95 / 100\<rparr>)
           \<lparr>channels = 2, frames = [ [9, 9], [9, 9], [9, 9], [9, 9]]\<rparr>
           [1, 2, 3, 4, 5, 6, 7, 8]
         = Inr (s', \<lparr>channels = 2, frames = [ [1, 2], [3, 4], [5, 6], [0, 0]]\<rparr>))"
proof -
  let ?s = "(init 4 2 7)\<lparr>chunk_number := 3, playback_speed := 95 / 100\<rparr>"
  let ?DAC = "\<lparr>channels = 2, frames = [ [9, 9], [9, 9], [9, 9], [9, 9 :: sample]]\<rparr>"
  let ?chunk = "[1, 2, 3, 4, 5, 6, 7, 8 :: sample]"
  have a: "cells_in_buffer ?s \<noteq> 0" by (simp add: init_def)
  have b: "length ?chunk = frames_per_chunk ?s * NUMBER_OF_CHANNELS ?s"
    by (simp add: init_def)
  have c: "length (frames ?DAC) = frames_per_chunk ?s" by (simp add: init_def)
  have d: "channels ?DAC = NUMBER_OF_CHANNELS ?s" by (simp add: init_def)
  have e: "\<forall>f \<in> set (frames ?DAC). length f = NUMBER_OF_CHANNELS ?s" by (simp add: init_def)
  have f: "0 \<le> playback_speed ?s" by simp
  have g: "?DAC\<lparr>frames :=
            (let k = min (frames_per_chunk ?s)
                       (nat \<lfloor>of_nat (frames_per_chunk ?s) * playback_speed ?s\<rfloor>)
             in take k (rows_of (frames_per_chunk ?s) (NUMBER_OF_CHANNELS ?s) ?chunk)
                @ replicate (frames_per_chunk ?s - k)
                    (replicate (NUMBER_OF_CHANNELS ?s) 0))\<rparr>
           = \<lparr>channels = 2, frames = [ [1, 2], [3, 4], [5, 6], [0, 0]]\<rparr>"
    by code_simp
  from play_chunk_fill [OF a b c d e f] obtain s' where
    "play_chunk ?s ?DAC ?chunk
       = Inr (s', \<lparr>channels = 2, frames = [ [1, 2], [3, 4], [5, 6], [0, 0]]\<rparr>)"
    unfolding g by blast
  moreover have "map length (frames ?DAC) = replicate 4 (NUMBER_OF_CHANNELS ?s)"
    by code_simp
  ultimately show ?thesis using a b c d f by blast
qed

text \<open>
  C6 as stated fails. With three frames per chunk, one channel and four chunks to
  buffer, the first datagram 4 seeds the play cursor at cell 0 and the datagram 8 puts
  the samples 1, 2, 3 into that cell. The next callback finds the occupancy 1, so the
  controller gives the fill ratio 0.60; the product is 1.8, which rounds to 2, and the
  callback copies one frame only.
\<close>

theorem play_chunk_truncates:
  "run send_ok (init 3 1 4)
     [Datagram [0, 4, 7, 0, 7, 0, 7, 0], Datagram [0, 8, 1, 0, 2, 0, 3, 0]]
     = Inr \<lparr>frames_per_chunk = 3, NUMBER_OF_CHANNELS = 1, chunks_to_buffer = 4,
            cells_in_buffer = 8,
            buffer = [ [1, 2, 3], [0, 0, 0], [0, 0, 0], [0, 0, 0], [7, 7, 7], [0, 0, 0],
                      [0, 0, 0], [0, 0, 0]],
            chunk_number = 0, played_chunk_number = 0, playback_speed = 1\<rparr> \<and>
   record_IO_and_play send_ok
     \<lparr>frames_per_chunk = 3, NUMBER_OF_CHANNELS = 1, chunks_to_buffer = 4,
       cells_in_buffer = 8,
       buffer = [ [1, 2, 3], [0, 0, 0], [0, 0, 0], [0, 0, 0], [7, 7, 7], [0, 0, 0],
                 [0, 0, 0], [0, 0, 0]],
       chunk_number = 0, played_chunk_number = 0, playback_speed = 1\<rparr>
     [ [5], [5], [5]] \<lparr>channels = 1, frames = [ [9], [9], [9]]\<rparr>
     = Inr (\<lparr>frames_per_chunk = 3, NUMBER_OF_CHANNELS = 1, chunks_to_buffer = 4,
             cells_in_buffer = 8,
             buffer = [ [1, 2, 3], [0, 0, 0], [0, 0, 0], [0, 0, 0], [7, 7, 7], [0, 0, 0],
                       [0, 0, 0], [0, 0, 0]],
             chunk_number = 1, played_chunk_number = 1, playback_speed = 60 / 100\<rparr>,
            \<lparr>channels = 1, frames = [ [1], [0], [0]]\<rparr>, [0, 1, 5, 0, 5, 0, 5, 0]) \<and>
   round (of_nat 3 * (60 / 100 :: rat)) = 2"
proof (intro conjI)
  show "round (of_nat 3 * (60 / 100 :: rat)) = 2"
    by (simp add: round_def floor_eq_iff)
qed code_simp+

text \<open>
  C8, as the code has it. The callback always forms its datagram. When \<^verbatim>\<open>send\<close> raises,
  the exception leaves the callback at once, in both files: the sequence counter has
  advanced, the play cursor and the output array are untouched, and no chunk is read or
  rendered for that period. When \<^verbatim>\<open>send\<close> returns, the ring has cells, and the due
  chunk has \<open>frames_per_chunk * NUMBER_OF_CHANNELS\<close> samples and the output array has
  \<open>frames_per_chunk\<close> frames of \<open>NUMBER_OF_CHANNELS\<close> samples each, the callback
  returns with the play cursor advanced by one cell.
\<close>

theorem transmit_failure_leaves_callback:
  "\<exists>p. pack ((chunk_number s + 1) mod CHUNK_NUMBERS) (concat ADC) = Inr p \<and>
     (\<forall>e. send p = Some e \<longrightarrow>
        record_IO_and_play send s ADC DAC
          = Inl (e, s\<lparr>chunk_number := (chunk_number s + 1) mod CHUNK_NUMBERS\<rparr>, DAC) \<and>
        record_IO_and_play1 send s ADC DAC
          = Inl (e, s\<lparr>chunk_number := (chunk_number s + 1) mod CHUNK_NUMBERS\<rparr>, DAC)) \<and>
     (send p = None \<and> 0 < cells_in_buffer s \<and> length (buffer s) = nat (cells_in_buffer s) \<and>
      length (buffer s ! nat (played_chunk_number s mod cells_in_buffer s))
        = frames_per_chunk s * NUMBER_OF_CHANNELS s \<and>
      length (frames DAC) = frames_per_chunk s \<and>
      channels DAC = NUMBER_OF_CHANNELS s \<and>
      (\<forall>f \<in> set (frames DAC). length f = NUMBER_OF_CHANNELS s) \<longrightarrow>
        (\<exists>s' DAC'. record_IO_and_play send s ADC DAC = Inr (s', DAC', p) \<and>
           played_chunk_number s' = (played_chunk_number s + 1) mod cells_in_buffer s) \<and>
        (\<exists>s' DAC'. record_IO_and_play1 send s ADC DAC = Inr (s', DAC', p) \<and>
           played_chunk_number s' = (played_chunk_number s + 1) mod cells_in_buffer s))"
proof -
  obtain p where p: "pack ((chunk_number s + 1) mod CHUNK_NUMBERS) (concat ADC) = Inr p"
    using pack_next_number by blast
  have raises: "\<forall>e. send p = Some e \<longrightarrow>
        record_IO_and_play send s ADC DAC
          = Inl (e, s\<lparr>chunk_number := (chunk_number s + 1) mod CHUNK_NUMBERS\<rparr>, DAC) \<and>
        record_IO_and_play1 send s ADC DAC
          = Inl (e, s\<lparr>chunk_number := (chunk_number s + 1) mod CHUNK_NUMBERS\<rparr>, DAC)"
    using record_IO_and_play_send_raises [OF p] by blast
  have returns: "send p = None \<and> 0 < cells_in_buffer s \<and>
      length (buffer s) = nat (cells_in_buffer s) \<and>
      length (buffer s ! nat (played_chunk_number s mod cells_in_buffer s))
        = frames_per_chunk s * NUMBER_OF_CHANNELS s \<and>
      length (frames DAC) = frames_per_chunk s \<and>
      channels DAC = NUMBER_OF_CHANNELS s \<and>
      (\<forall>f \<in> set (frames DAC). length f = NUMBER_OF_CHANNELS s) \<longrightarrow>
        (\<exists>s' DAC'. record_IO_and_play send s ADC DAC = Inr (s', DAC', p) \<and>
           played_chunk_number s' = (played_chunk_number s + 1) mod cells_in_buffer s) \<and>
        (\<exists>s' DAC'. record_IO_and_play1 send s ADC DAC = Inr (s', DAC', p) \<and>
           played_chunk_number s' = (played_chunk_number s + 1) mod cells_in_buffer s)"
    using record_IO_and_play_returns [OF p] record_IO_and_play1_returns [OF p]
    by (intro impI conjI) (elim conjE, assumption+)+
  show ?thesis
    by (intro exI [of _ p] conjI p raises returns)
qed

theorem transmit_failure_leaves_callback_witness:
  "(\<exists>p. pack ((chunk_number (init 2 1 5) + 1) mod CHUNK_NUMBERS) (concat [ [1], [2]]) = Inr p \<and>
      send_fails p = Some OSError \<and>
      record_IO_and_play send_fails (init 2 1 5) [ [1], [2]] \<lparr>channels = 1, frames = [ [9], [9]]\<rparr>
        = Inl (OSError, (init 2 1 5)\<lparr>chunk_number := (chunk_number (init 2 1 5) + 1) mod CHUNK_NUMBERS\<rparr>,
               \<lparr>channels = 1, frames = [ [9], [9]]\<rparr>) \<and>
      record_IO_and_play1 send_fails (init 2 1 5) [ [1], [2]] \<lparr>channels = 1, frames = [ [9], [9]]\<rparr>
        = Inl (OSError, (init 2 1 5)\<lparr>chunk_number := (chunk_number (init 2 1 5) + 1) mod CHUNK_NUMBERS\<rparr>,
               \<lparr>channels = 1, frames = [ [9], [9]]\<rparr>)) \<and>
   (\<exists>p. send_ok p = None \<and> 0 < cells_in_buffer (init 2 1 5) \<and>
      length (buffer (init 2 1 5)) = nat (cells_in_buffer (init 2 1 5)) \<and>
      length (buffer (init 2 1 5)
                ! nat (played_chunk_number (init 2 1 5) mod cells_in_buffer (init 2 1 5)))
        = frames_per_chunk (init 2 1 5) * NUMBER_OF_CHANNELS (init 2 1 5) \<and>
      length (frames \<lparr>channels = 1, frames = [ [9], [9 :: sample]]\<rparr>)
        = frames_per_chunk (init 2 1 5) \<and>
      channels \<lparr>channels = 1, frames = [ [9], [9 :: sample]]\<rparr>
        = NUMBER_OF_CHANNELS (init 2 1 5) \<and>
      map length (frames \<lparr>channels = 1, frames = [ [9], [9 :: sample]]\<rparr>)
        = replicate 2 (NUMBER_OF_CHANNELS (init 2 1 5)) \<and>
      (\<exists>s' DAC'. record_IO_and_play send_ok (init 2 1 5) [ [1], [2]] \<lparr>channels = 1, frames = [ [9], [9]]\<rparr> = Inr (s', DAC', p) \<and>
         played_chunk_number s' = 1) \<and>
      (\<exists>s' DAC'. record_IO_and_play1 send_ok (init 2 1 5) [ [1], [2]] \<lparr>channels = 1, frames = [ [9], [9]]\<rparr> = Inr (s', DAC', p) \<and>
         played_chunk_number s' = 1))"
proof (intro conjI)
  let ?s = "init 2 1 5"
  let ?DAC = "\<lparr>channels = 1, frames = [ [9], [9 :: sample]]\<rparr>"
  obtain p where p: "pack ((chunk_number ?s + 1) mod CHUNK_NUMBERS) (concat [ [1], [2]]) = Inr p"
    and raises: "\<forall>e. send_fails p = Some e \<longrightarrow>
        record_IO_and_play send_fails ?s [ [1], [2]] ?DAC
          = Inl (e, ?s\<lparr>chunk_number := (chunk_number ?s + 1) mod CHUNK_NUMBERS\<rparr>, ?DAC) \<and>
        record_IO_and_play1 send_fails ?s [ [1], [2]] ?DAC
          = Inl (e, ?s\<lparr>chunk_number := (chunk_number ?s + 1) mod CHUNK_NUMBERS\<rparr>, ?DAC)"
    using transmit_failure_leaves_callback [of ?s "[ [1], [2]]" send_fails ?DAC] by blast
  have "send_fails p = Some OSError" by (simp add: send_fails_def)
  with p raises show "\<exists>p. pack ((chunk_number ?s + 1) mod CHUNK_NUMBERS) (concat [ [1], [2]]) = Inr p \<and>
      send_fails p = Some OSError \<and>
      record_IO_and_play send_fails ?s [ [1], [2]] ?DAC
        = Inl (OSError, ?s\<lparr>chunk_number := (chunk_number ?s + 1) mod CHUNK_NUMBERS\<rparr>, ?DAC) \<and>
      record_IO_and_play1 send_fails ?s [ [1], [2]] ?DAC
        = Inl (OSError, ?s\<lparr>chunk_number := (chunk_number ?s + 1) mod CHUNK_NUMBERS\<rparr>, ?DAC)"
    by blast
next
  let ?s = "init 2 1 5"
  let ?DAC = "\<lparr>channels = 1, frames = [ [9], [9 :: sample]]\<rparr>"
  have a: "0 < cells_in_buffer ?s" by (simp add: init_def)
  have b: "length (buffer ?s) = nat (cells_in_buffer ?s)" by (simp add: init_def)
  have c: "length (buffer ?s ! nat (played_chunk_number ?s mod cells_in_buffer ?s))
        = frames_per_chunk ?s * NUMBER_OF_CHANNELS ?s"
    by (simp add: init_def generate_zero_chunk_def)
  have d: "length (frames ?DAC) = frames_per_chunk ?s" by (simp add: init_def)
  have d2: "channels ?DAC = NUMBER_OF_CHANNELS ?s" by (simp add: init_def)
  have d3: "\<forall>f \<in> set (frames ?DAC). length f = NUMBER_OF_CHANNELS ?s"
    by (simp add: init_def)
  have e: "(played_chunk_number ?s + 1) mod cells_in_buffer ?s = 1" by (simp add: init_def)
  have ok: "send_ok q = None" for q by (simp add: send_ok_def)
  obtain p where
    returns: "send_ok p = None \<and> 0 < cells_in_buffer ?s \<and>
      length (buffer ?s) = nat (cells_in_buffer ?s) \<and>
      length (buffer ?s ! nat (played_chunk_number ?s mod cells_in_buffer ?s))
        = frames_per_chunk ?s * NUMBER_OF_CHANNELS ?s \<and>
      length (frames ?DAC) = frames_per_chunk ?s \<and>
      channels ?DAC = NUMBER_OF_CHANNELS ?s \<and>
      (\<forall>f \<in> set (frames ?DAC). length f = NUMBER_OF_CHANNELS ?s) \<longrightarrow>
        (\<exists>s' DAC'. record_IO_and_play send_ok ?s [ [1], [2]] ?DAC = Inr (s', DAC', p) \<and>
           played_chunk_number s' = (played_chunk_number ?s + 1) mod cells_in_buffer ?s) \<and>
        (\<exists>s' DAC'. record_IO_and_play1 send_ok ?s [ [1], [2]] ?DAC = Inr (s', DAC', p) \<and>
           played_chunk_number s' = (played_chunk_number ?s + 1) mod cells_in_buffer ?s)"
    using transmit_failure_leaves_callback [of ?s "[ [1], [2]]" send_ok ?DAC] by blast
  from returns ok [of p] a b c d d2 d3
  have "(\<exists>s' DAC'. record_IO_and_play send_ok ?s [ [1], [2]] ?DAC = Inr (s', DAC', p) \<and>
           played_chunk_number s' = 1) \<and>
        (\<exists>s' DAC'. record_IO_and_play1 send_ok ?s [ [1], [2]] ?DAC = Inr (s', DAC', p) \<and>
           played_chunk_number s' = 1)"
    unfolding e by blast
  moreover have d4: "map length (frames ?DAC) = replicate 2 (NUMBER_OF_CHANNELS ?s)"
    by code_simp
  ultimately
  show "\<exists>p. send_ok p = None \<and> 0 < cells_in_buffer ?s \<and>
      length (buffer ?s) = nat (cells_in_buffer ?s) \<and>
      length (buffer ?s ! nat (played_chunk_number ?s mod cells_in_buffer ?s))
        = frames_per_chunk ?s * NUMBER_OF_CHANNELS ?s \<and>
      length (frames ?DAC) = frames_per_chunk ?s \<and>
      channels ?DAC = NUMBER_OF_CHANNELS ?s \<and>
      map length (frames ?DAC) = replicate 2 (NUMBER_OF_CHANNELS ?s) \<and>
      (\<exists>s' DAC'. record_IO_and_play send_ok ?s [ [1], [2]] ?DAC = Inr (s', DAC', p) \<and>
         played_chunk_number s' = 1) \<and>
      (\<exists>s' DAC'. record_IO_and_play1 send_ok ?s [ [1], [2]] ?DAC = Inr (s', DAC', p) \<and>
         played_chunk_number s' = 1)"
    using ok [of p] a b c d d2 by blast
qed

text \<open>
  C8 as stated fails: with a transport whose \<^verbatim>\<open>send\<close> raises, the callback of either
  file ends with that error, the play cursor where it was and the output array as it was
  handed over.
\<close>

theorem send_failure_skips_playback:
  "record_IO_and_play send_fails (init 2 1 5) [ [1], [2]] \<lparr>channels = 1, frames = [ [9], [9]]\<rparr>
     = Inl (OSError, (init 2 1 5)\<lparr>chunk_number := 1\<rparr>, \<lparr>channels = 1, frames = [ [9], [9]]\<rparr>) \<and>
   record_IO_and_play1 send_fails (init 2 1 5) [ [1], [2]] \<lparr>channels = 1, frames = [ [9], [9]]\<rparr>
     = Inl (OSError, (init 2 1 5)\<lparr>chunk_number := 1\<rparr>, \<lparr>channels = 1, frames = [ [9], [9]]\<rparr>) \<and>
   played_chunk_number ((init 2 1 5)\<lparr>chunk_number := 1\<rparr>) = played_chunk_number (init 2 1 5)"
  by code_simp

text \<open>
  C9, as the code has it. Whenever the callback of either file returns, the sequence
  counter has become \<open>(chunk_number + 1) mod 32768\<close>, which lies from 0 to 32767, the
  datagram handed to \<^verbatim>\<open>send\<close> decodes to that number and the captured samples, and
  after 32767 the next number is 0.
\<close>

theorem wire_sequence_wraps_at_CHUNK_NUMBERS:
  assumes "record_IO_and_play send s ADC DAC = Inr (s', DAC', p) \<or>
           record_IO_and_play1 send s ADC DAC = Inr (s', DAC', p)"
  shows "chunk_number s' = (chunk_number s + 1) mod 32768 \<and>
         0 \<le> chunk_number s' \<and> chunk_number s' < 32768 \<and>
         unpack p = Inr (chunk_number s', concat ADC) \<and>
         (chunk_number s = 32767 \<longrightarrow> chunk_number s' = 0)"
proof -
  let ?n = "(chunk_number s + 1) mod CHUNK_NUMBERS"
  have n: "chunk_number s' = ?n"
    using assms record_IO_and_play_sent(1) record_IO_and_play1_sent(1) by blast
  have p: "pack ?n (concat ADC) = Inr p"
    using assms record_IO_and_play_sent(2) record_IO_and_play1_sent(2) by blast
  from pack_next_number [of "chunk_number s" "concat ADC"] p
  have "unpack p = Inr (?n, concat ADC)" by auto
  with n show ?thesis
    by (simp add: CHUNK_NUMBERS_eq)
qed

theorem wire_sequence_wraps_at_CHUNK_NUMBERS_witness:
  "record_IO_and_play send_ok ((init 1 1 1)\<lparr>chunk_number := 32767\<rparr>) [ [6]] \<lparr>channels = 1, frames = [ [9]]\<rparr>
     = Inr ((init 1 1 1)\<lparr>chunk_number := 0, played_chunk_number := 1,
                           playback_speed := 105 / 100\<rparr>, \<lparr>channels = 1, frames = [ [0]]\<rparr>, [0, 0, 6, 0]) \<and>
   chunk_number ((init 1 1 1)\<lparr>chunk_number := 32767\<rparr>) = 32767 \<and>
   chunk_number ((init 1 1 1)\<lparr>chunk_number := 0, played_chunk_number := 1,
                           playback_speed := 105 / 100\<rparr>) = 0 \<and>
   unpack [0, 0, 6, 0] = Inr (0, concat [ [6]])"
proof -
  have r: "record_IO_and_play send_ok ((init 1 1 1)\<lparr>chunk_number := 32767\<rparr>) [ [6]] \<lparr>channels = 1, frames = [ [9]]\<rparr>
     = Inr ((init 1 1 1)\<lparr>chunk_number := 0, played_chunk_number := 1,
                           playback_speed := 105 / 100\<rparr>, \<lparr>channels = 1, frames = [ [0]]\<rparr>, [0, 0, 6, 0])"
    by code_simp
  show ?thesis
    using wire_sequence_wraps_at_CHUNK_NUMBERS [OF disjI1 [OF r]] r by simp
qed

text \<open>
  C9 as stated fails: from the counter 32767 the callback of either file sends the
  sequence number 0, where a counter that wraps at 65536 would send 32768.
\<close>

theorem wire_sequence_not_16_bit:
  "record_IO_and_play send_ok ((init 1 1 1)\<lparr>chunk_number := 32767\<rparr>) [ [5]] \<lparr>channels = 1, frames = [ [9]]\<rparr>
     = Inr ((init 1 1 1)\<lparr>chunk_number := 0, played_chunk_number := 1,
                           playback_speed := 105 / 100\<rparr>, \<lparr>channels = 1, frames = [ [0]]\<rparr>, [0, 0, 5, 0]) \<and>
   record_IO_and_play1 send_ok ((init 1 1 1)\<lparr>chunk_number := 32767\<rparr>) [ [5]] \<lparr>channels = 1, frames = [ [9]]\<rparr>
     = Inr ((init 1 1 1)\<lparr>chunk_number := 0, played_chunk_number := 1\<rparr>, \<lparr>channels = 1, frames = [ [0]]\<rparr>, [0, 0, 5, 0]) \<and>
   unpack [0, 0, 5, 0] = Inr (0, [5]) \<and>
   (32767 + 1) mod 65536 = (32768 :: int)"
  by code_simp

text \<open>
  C5. The occupancy is computed from \<open>chunk_number\<close>, the counter of the chunks captured
  and sent by the callback, and not from the sequence numbers that the receive loop
  writes into the ring: with 5 chunks to buffer, after the first datagram 100 the
  occupancy is 5, and it is still 5 after the datagrams 101, 102 and 103, where the last
  sequence number written gives \<open>(103 - 5) mod 10 = 8\<close>.
\<close>

theorem occupancy_ignores_received:
  "bind_err (run send_ok (init 1 1 5) [Datagram [0, 100, 7, 0]]) chunks_in_buffer = Inr 5 \<and>
   bind_err (run send_ok (init 1 1 5)
      [Datagram [0, 100, 7, 0], Datagram [0, 101, 7, 0], Datagram [0, 102, 8, 0],
       Datagram [0, 103, 8, 0]]) chunks_in_buffer = Inr 5 \<and>
   (103 - 5) mod 10 = (8 :: int)"
  by code_simp

end
